theory Spec2Isabelle
  imports Main "HOL-Library.Word"
begin

unbundle bit_operations_syntax

section \<open>C strings\<close>

text \<open>
  A C string is modelled by the bytes of its buffer, a \<^typ>\<open>string\<close>. The terminating
  NUL is implicit at the end of the list; every loop of the program that stops at the
  terminator also stops at a NUL byte inside the list, so that the functions below read
  a buffer exactly as the C code reads it. \<open>cstr\<close> is the text a buffer holds: its bytes
  before the first NUL. A \<open>char *\<close> that may be \<open>NULL\<close> is a \<^typ>\<open>string option\<close>.
\<close>

definition NUL :: char where
  "NUL = CHR 0x00"

definition cstr :: "string \<Rightarrow> string" where
  "cstr s = takeWhile (\<lambda>c. c \<noteq> NUL) s"

text \<open>\<open>(c >= '0') && (c <= '9')\<close>, on the character codes.\<close>

definition is_digit :: "char \<Rightarrow> bool" where
  "is_digit c = (48 \<le> (of_char c :: nat) \<and> (of_char c :: nat) \<le> 57)"

text \<open>\<open>c - '0'\<close> for a digit \<open>c\<close>.\<close>

definition digit_val :: "char \<Rightarrow> nat" where
  "digit_val c = (of_char c :: nat) - 48"

section \<open>unRLE (simplesok.c, 136-159)\<close>

text \<open>
  The inner loop \<open>for (; rlecnt > 0; rlecnt--)\<close> writes the byte \<open>c\<close> at \<open>res[reslen++]\<close>,
  doubling \<open>resalloc\<close> first when \<open>reslen + 4 > resalloc\<close>. The state is the buffer
  written so far (its length is \<open>reslen\<close>) and \<open>resalloc\<close>. The allocations are taken to
  succeed, as the code takes them (it does not test the result of \<open>malloc\<close>).
\<close>

fun unRLE_emit :: "char \<Rightarrow> nat \<Rightarrow> string \<times> nat \<Rightarrow> string \<times> nat" where
  "unRLE_emit c 0 (res, resalloc) = (res, resalloc)"
| "unRLE_emit c (Suc n) (res, resalloc) =
     unRLE_emit c n
       (res @ [c], if length res + 4 > resalloc then resalloc * 2 else resalloc)"

text \<open>
  The outer loop over \<open>xsb[x]\<close>: a digit sets \<open>rlecnt\<close>, any other byte is written
  \<open>rlecnt\<close> times and \<open>rlecnt\<close> goes back to 1.
\<close>

fun unRLE_loop :: "string \<Rightarrow> nat \<Rightarrow> string \<times> nat \<Rightarrow> string \<times> nat" where
  "unRLE_loop [] rlecnt st = st"
| "unRLE_loop (c # cs) rlecnt st =
     (if c = NUL then st
      else if is_digit c then unRLE_loop cs (digit_val c) st
      else unRLE_loop cs 1 (unRLE_emit c rlecnt st))"

definition unRLE :: "string \<Rightarrow> string" where
  "unRLE xsb = fst (unRLE_loop xsb 1 ([], 16))"

text \<open>The decoded text, as a function of the input alone.\<close>

fun expand :: "string \<Rightarrow> nat \<Rightarrow> string" where
  "expand [] rlecnt = []"
| "expand (c # cs) rlecnt =
     (if c = NUL then []
      else if is_digit c then expand cs (digit_val c)
      else replicate rlecnt c @ expand cs 1)"

section \<open>trimstr (simplesok.c, 237-254)\<close>

text \<open>
  The scan keeps in \<open>lastrealchar\<close> the index of the last byte that is not a blank, a
  tab, a carriage return or a line feed; \<open>x\<close> is the index of the byte read.
\<close>

fun trimstr_scan :: "string \<Rightarrow> int \<Rightarrow> int \<Rightarrow> int" where
  "trimstr_scan [] x lastrealchar = lastrealchar"
| "trimstr_scan (c # cs) x lastrealchar =
     (if c = NUL then lastrealchar
      else trimstr_scan cs (x + 1)
        (if c = CHR '' '' \<or> c = CHR 0x09 \<or> c = CHR 0x0D \<or> c = CHR 0x0A
         then lastrealchar else x))"

text \<open>
  \<open>str[lastrealchar + 1] = 0\<close>. The index is at most \<open>strlen(str)\<close>; when it is the
  index of the terminator of a list without NUL, the terminator is written over itself
  (\<open>list_update\<close> leaves the list as it is).
\<close>

fun trimstr :: "string option \<Rightarrow> string option" where
  "trimstr None = None"
| "trimstr (Some str) = Some (str[nat (trimstr_scan str 0 (- 1) + 1) := NUL])"

section \<open>isLegalSokoSolution (simplesok.c, 256-290)\<close>

text \<open>The eight direction letters of the \<open>switch\<close>.\<close>

definition is_dir :: "char \<Rightarrow> bool" where
  "is_dir c = (c = CHR ''u'' \<or> c = CHR ''U'' \<or> c = CHR ''r'' \<or> c = CHR ''R'' \<or>
               c = CHR ''d'' \<or> c = CHR ''D'' \<or> c = CHR ''l'' \<or> c = CHR ''L'')"

text \<open>\<open>solstr[1] == 0\<close>, where the list is the buffer from \<open>solstr + 1\<close> on.\<close>

fun next_is_NUL :: "string \<Rightarrow> bool" where
  "next_is_NUL [] = True"
| "next_is_NUL (c # cs) = (c = NUL)"

text \<open>
  The \<open>for (;;)\<close> loop with its \<open>switch (*solstr)\<close>: the ten digit labels are the bytes
  with \<open>is_digit\<close>; the end of the list is the terminator, \<open>case 0\<close>.
\<close>

fun legal_loop :: "string \<Rightarrow> int" where
  "legal_loop [] = 1"
| "legal_loop (c # cs) =
     (if is_digit c then (if next_is_NUL cs then 0 else legal_loop cs)
      else if is_dir c then legal_loop cs
      else if c = NUL then 1
      else 0)"

fun isLegalSokoSolution :: "string option \<Rightarrow> int" where
  "isLegalSokoSolution None = 0"
| "isLegalSokoSolution (Some solstr) =
     (if length (cstr solstr) < 1 then 0 else legal_loop solstr)"

text \<open>
  The validation rule in the words of the specification, for comparison with the code:
  a string is accepted when all of its characters are digits or direction letters and
  every digit is immediately followed by a direction letter.
\<close>

fun digits_before_dirs :: "string \<Rightarrow> bool" where
  "digits_before_dirs [] = True"
| "digits_before_dirs (c # cs) =
     ((is_digit c \<longrightarrow> (case cs of [] \<Rightarrow> False | n # _ \<Rightarrow> is_dir n)) \<and>
      digits_before_dirs cs)"

definition spec_legal :: "string \<Rightarrow> bool" where
  "spec_legal s = (list_all (\<lambda>c. is_digit c \<or> is_dir c) s \<and> digits_before_dirs s)"

section \<open>The game structures\<close>

text \<open>
  The header sok_core.h, which declares \<open>struct sokgame\<close>, \<open>struct sokgamestates\<close>,
  \<open>enum SOKMOVE\<close> and the cell flags, is missing from the sources. The records below hold
  the fields that simplesok.c reads and writes, at the types it uses them.

  The four cell flags \<open>field_floor\<close>, \<open>field_atom\<close>, \<open>field_goal\<close> and \<open>field_wall\<close> are
  macros of the missing header: their values are a parameter of the model. A cell is an
  \<open>unsigned char\<close>, so a flag is a byte.
\<close>

record cellflags =
  field_floor :: "8 word"
  field_atom :: "8 word"
  field_goal :: "8 word"
  field_wall :: "8 word"

text \<open>
  Modelled from the spec: the values of the cell flags (sok_core.h is missing). Section 9
  of the specification describes them as independent bits: each flag is one bit of the
  cell, and the four bits differ.
\<close>

definition single_bit :: "8 word \<Rightarrow> bool" where
  "single_bit w = (w \<in> set [1, 2, 4, 8, 16, 32, 64, 128])"

definition independent_bits :: "cellflags \<Rightarrow> bool" where
  "independent_bits fl =
     (single_bit (field_floor fl) \<and> single_bit (field_atom fl) \<and>
      single_bit (field_goal fl) \<and> single_bit (field_wall fl) \<and>
      distinct [field_floor fl, field_atom fl, field_goal fl, field_wall fl])"

text \<open>A cell that has no bit outside the four flags.\<close>

definition only_flags :: "cellflags \<Rightarrow> 8 word \<Rightarrow> bool" where
  "only_flags fl v =
     (v AND NOT (field_floor fl OR field_atom fl OR field_goal fl OR field_wall fl) = 0)"

text \<open>\<open>v & flag\<close> as a condition.\<close>

definition has_flag :: "8 word \<Rightarrow> 8 word \<Rightarrow> bool" where
  "has_flag v flag = (v AND flag \<noteq> 0)"

text \<open>
  \<open>struct sokgame\<close>: \<open>field[x][y]\<close> is read at \<open>int\<close> coordinates, \<open>field_width\<close> and
  \<open>field_height\<close> bound the loops over it, \<open>crc32\<close> is printed as an \<open>unsigned long\<close>,
  \<open>solution\<close> is a string or \<open>NULL\<close>. The grid is a total function of the coordinates,
  since the bounds of the array are part of the missing declaration.
\<close>

record sokgame =
  field_width :: nat
  field_height :: nat
  field :: "int \<Rightarrow> int \<Rightarrow> 8 word"
  positionx :: int
  positiony :: int
  crc32 :: nat
  solution :: "string option"

text \<open>
  \<open>struct sokgamestates\<close>: the history of the moves played, a string. Its field \<open>angle\<close>,
  which only the drawing of the player uses, is left out.
\<close>

record sokgamestates =
  history :: string

datatype SOKMOVE = sokmoveNONE | sokmoveUP | sokmoveRIGHT | sokmoveDOWN | sokmoveLEFT

section \<open>dumplevel2clipboard (simplesok.c, 1115-1164)\<close>

definition NL :: char where
  "NL = CHR 0x0A"

text \<open>
  The \<open>switch (game->field[x][y] & ~field_floor)\<close> of the inner loop: the symbol that
  \<open>strcat\<close> appends for the cell at \<open>(x, y)\<close>. The case labels of a \<open>switch\<close> are distinct,
  so the order of the tests below does not matter for flags the program compiles with.
\<close>

definition cell_symbol :: "cellflags \<Rightarrow> sokgame \<Rightarrow> int \<Rightarrow> int \<Rightarrow> char" where
  "cell_symbol fl game x y =
     (let v = field game x y AND NOT (field_floor fl) in
      if v = field_wall fl then CHR ''#''
      else if v = (field_atom fl OR field_goal fl) then CHR ''*''
      else if v = field_atom fl then CHR ''$''
      else if v = field_goal fl then
        (if positionx game = x \<and> positiony game = y then CHR ''+'' else CHR ''.'')
      else
        (if positionx game = x \<and> positiony game = y then CHR ''@'' else CHR '' ''))"

text \<open>The loop over \<open>x\<close> for one \<open>y\<close>, with the line feed appended after it.\<close>

definition dump_row :: "cellflags \<Rightarrow> sokgame \<Rightarrow> nat \<Rightarrow> string" where
  "dump_row fl game y =
     map (\<lambda>x. cell_symbol fl game (int x) (int y)) [0..<field_width game] @ [NL]"

text \<open>The loop over \<open>y\<close>.\<close>

definition dump_rows :: "cellflags \<Rightarrow> sokgame \<Rightarrow> string" where
  "dump_rows fl game = concat (map (dump_row fl game) [0..<field_height game])"

text \<open>\<open>%lX\<close>: upper-case hexadecimal without leading zeros.\<close>

definition hexdigit :: "nat \<Rightarrow> char" where
  "hexdigit n = ''0123456789ABCDEF'' ! n"

fun hexX :: "nat \<Rightarrow> string" where
  "hexX n = (if n < 16 then [hexdigit n] else hexX (n div 16) @ [hexdigit (n mod 16)])"

declare hexX.simps [simp del]

text \<open>The trailer: the history when there is one and it is not empty.\<close>

definition dump_trailer :: "string option \<Rightarrow> string" where
  "dump_trailer hist =
     (case hist of
        None \<Rightarrow> ''; No solution available'' @ [NL]
      | Some h \<Rightarrow>
          if cstr h \<noteq> [] then ''; Solution'' @ [NL] @ ''; '' @ cstr h @ [NL]
          else ''; No solution available'' @ [NL])"

text \<open>
  The text that the \<open>sprintf\<close> and the \<open>strcat\<close> calls build: the header with the
  checksum of the level, the rows, an empty line and the trailer.
\<close>

definition dump_txt :: "cellflags \<Rightarrow> sokgame \<Rightarrow> string option \<Rightarrow> string" where
  "dump_txt fl game hist =
     ''; Level id: '' @ hexX (crc32 game) @ [NL, NL] @
     dump_rows fl game @ [NL] @ dump_trailer hist"

datatype dump_error = OutOfMemory | BufferOverrun

text \<open>
  The result is the text handed to \<open>SDL_SetClipboardText\<close>. \<open>malloc_ok\<close> tells whether
  the allocation of \<open>txt\<close> succeeds; when it fails the function returns and the clipboard
  is not set. The buffer has \<open>solutionlen + playfieldsize + 4096\<close> bytes; a text that,
  with its terminator, does not fit is written past the end of the buffer, which the
  model reports as \<open>BufferOverrun\<close>.
\<close>

definition dumplevel2clipboard ::
    "cellflags \<Rightarrow> sokgame \<Rightarrow> string option \<Rightarrow> bool \<Rightarrow> dump_error + string" where
  "dumplevel2clipboard fl game hist malloc_ok =
     (let solutionlen = (case solution game of None \<Rightarrow> 0 | Some s \<Rightarrow> length (cstr s));
          playfieldsize = (field_width game + 1) * field_height game
      in if \<not> malloc_ok then Inl OutOfMemory
         else if length (dump_txt fl game hist) + 1 > solutionlen + playfieldsize + 4096
         then Inl BufferOverrun
         else Inr (dump_txt fl game hist))"

text \<open>
  The cell symbols in the words of the specification, for comparison with the code: a
  wall is '#', a box on a goal '*', a box '$', a goal '+' under the player and '.'
  without, any other cell '@' under the player and blank without. It applies to the
  cells of the data model: a cell has no bit outside the four flags, and a wall holds
  neither a box nor a goal.
\<close>

definition cell_invariant :: "cellflags \<Rightarrow> 8 word \<Rightarrow> bool" where
  "cell_invariant fl v =
     (only_flags fl v \<and>
      \<not> (has_flag v (field_wall fl) \<and>
         (has_flag v (field_atom fl) \<or> has_flag v (field_goal fl))))"

definition alphabet_symbol :: "cellflags \<Rightarrow> 8 word \<Rightarrow> bool \<Rightarrow> char" where
  "alphabet_symbol fl v player =
     (if has_flag v (field_wall fl) then CHR ''#''
      else if has_flag v (field_atom fl) \<and> has_flag v (field_goal fl) then CHR ''*''
      else if has_flag v (field_atom fl) then CHR ''$''
      else if has_flag v (field_goal fl) then (if player then CHR ''+'' else CHR ''.'')
      else if player then CHR ''@''
      else CHR '' '')"

section \<open>The game core\<close>

text \<open>
  sok_core.c, with \<open>sok_move\<close>, \<open>sok_undo\<close>, \<open>sok_resetstates\<close>, \<open>sok_history_getlen\<close>
  and \<open>sok_history_getpushes\<close>, is missing from the sources; simplesok.c only calls
  them. This section models them from sections 3, 4.2 and 4.3 of the specification
  (\<open>attemptMove\<close>, \<open>undoLastMove\<close>, \<open>reset\<close>, the two counters, the replay of a
  history).
\<close>

text \<open>
  The step of a direction on the grid, as in the animation of \<open>main\<close> (simplesok.c,
  1743-1746): up is \<open>y - 1\<close>, right is \<open>x + 1\<close>.
\<close>

fun vector :: "SOKMOVE \<Rightarrow> int \<times> int" where
  "vector sokmoveUP = (0, - 1)"
| "vector sokmoveRIGHT = (1, 0)"
| "vector sokmoveDOWN = (0, 1)"
| "vector sokmoveLEFT = (- 1, 0)"
| "vector sokmoveNONE = (0, 0)"

text \<open>
  Modelled from the spec: the symbol that \<open>sok_move\<close> appends to the history
  (sok_core.c is missing), one of U, D, L and R for the direction of the move. Whether
  the move is a push is not part of the symbol (sections 3 and 4.3): it is found again
  from the grid when the history is replayed.
\<close>

fun move_symbol :: "SOKMOVE \<Rightarrow> char" where
  "move_symbol sokmoveUP = CHR ''U''"
| "move_symbol sokmoveRIGHT = CHR ''R''"
| "move_symbol sokmoveDOWN = CHR ''D''"
| "move_symbol sokmoveLEFT = CHR ''L''"
| "move_symbol sokmoveNONE = CHR '' ''"

text \<open>
  The direction of a symbol: the \<open>switch\<close> of the playback in \<open>main\<close> (simplesok.c,
  1714-1731), which leaves \<open>sokmoveNONE\<close> for any other byte.
\<close>

definition symbol_dir :: "char \<Rightarrow> SOKMOVE" where
  "symbol_dir c =
     (if c = CHR ''u'' \<or> c = CHR ''U'' then sokmoveUP
      else if c = CHR ''r'' \<or> c = CHR ''R'' then sokmoveRIGHT
      else if c = CHR ''d'' \<or> c = CHR ''D'' then sokmoveDOWN
      else if c = CHR ''l'' \<or> c = CHR ''L'' then sokmoveLEFT
      else sokmoveNONE)"

definition setcell ::
    "(int \<Rightarrow> int \<Rightarrow> 8 word) \<Rightarrow> int \<Rightarrow> int \<Rightarrow> 8 word \<Rightarrow> int \<Rightarrow> int \<Rightarrow> 8 word" where
  "setcell f x y v = f(x := (f x)(y := v))"

text \<open>
  Modelled from the spec: the win condition that \<open>sok_move\<close> checks (sok_core.c is
  missing): the cells of the grid that hold a box are exactly its goal cells.
\<close>

definition is_solved :: "cellflags \<Rightarrow> sokgame \<Rightarrow> bool" where
  "is_solved fl game =
     list_all (\<lambda>y. list_all (\<lambda>x.
         has_flag (field game (int x) (int y)) (field_atom fl) =
         has_flag (field game (int x) (int y)) (field_goal fl))
       [0..<field_width game]) [0..<field_height game]"

text \<open>
  Modelled from the spec: the result of \<open>sok_move\<close>, an \<open>int\<close> whose encoding is in the
  missing sok_core.h. It tells whether the move is legal (\<open>main\<close> tests \<open>res >= 0\<close>),
  whether it is a push (\<open>res & sokmove_pushed\<close>) and whether the level is solved after
  it (\<open>res & sokmove_solved\<close>).
\<close>

record moveresult =
  legal :: bool
  pushed :: bool
  solved :: bool

definition blocked :: moveresult where
  "blocked = \<lparr>legal = False, pushed = False, solved = False\<rparr>"

text \<open>
  Modelled from the spec: \<open>sok_move\<close> of the missing sok_core.c, the \<open>attemptMove\<close> of
  section 4.2. \<open>main\<close> calls it with 1 before the animation, which is the dry run,
  and with 0 after it, which commits the move: \<open>check \<noteq> 0\<close> is the dry run.
  A wall in the target cell blocks the move. A box in the target cell is pushed into
  the cell beyond it when that cell holds neither a wall nor a box, and blocks the move
  otherwise. Any other target cell is entered. A committed move changes the position,
  moves the pushed box and appends its symbol to the history; a dry run changes nothing.
  The specification names four directions; for \<open>sokmoveNONE\<close>, which \<open>main\<close> never
  passes, the model reports a blocked move.
\<close>

definition sok_move ::
    "cellflags \<Rightarrow> sokgame \<Rightarrow> SOKMOVE \<Rightarrow> int \<Rightarrow> sokgamestates \<Rightarrow>
     moveresult \<times> sokgame \<times> sokgamestates" where
  "sok_move fl game dir check states =
     (let (vx, vy) = vector dir;
          x = positionx game; y = positiony game;
          target = field game (x + vx) (y + vy);
          beyond = field game (x + 2 * vx) (y + 2 * vy)
      in if dir = sokmoveNONE then (blocked, game, states)
         else if has_flag target (field_wall fl) then (blocked, game, states)
         else if has_flag target (field_atom fl) then
           (if has_flag beyond (field_wall fl) \<or> has_flag beyond (field_atom fl)
            then (blocked, game, states)
            else if check \<noteq> 0
            then (\<lparr>legal = True, pushed = True, solved = False\<rparr>, game, states)
            else
              (let f1 = setcell (field game) (x + vx) (y + vy)
                          (target AND NOT (field_atom fl));
                   f2 = setcell f1 (x + 2 * vx) (y + 2 * vy) (beyond OR field_atom fl);
                   game' = game\<lparr>field := f2, positionx := x + vx, positiony := y + vy\<rparr>
               in (\<lparr>legal = True, pushed = True, solved = is_solved fl game'\<rparr>,
                   game',
                   states\<lparr>history := history states @ [move_symbol dir]\<rparr>)))
         else if check \<noteq> 0
         then (\<lparr>legal = True, pushed = False, solved = False\<rparr>, game, states)
         else
           (let game' = game\<lparr>positionx := x + vx, positiony := y + vy\<rparr>
            in (\<lparr>legal = True, pushed = False, solved = is_solved fl game'\<rparr>,
                game',
                states\<lparr>history := history states @ [move_symbol dir]\<rparr>)))"

text \<open>A run of committed moves; \<open>None\<close> as soon as one of them is not legal.\<close>

fun sok_moves ::
    "cellflags \<Rightarrow> SOKMOVE list \<Rightarrow> sokgame \<times> sokgamestates \<Rightarrow>
     (sokgame \<times> sokgamestates) option" where
  "sok_moves fl [] gs = Some gs"
| "sok_moves fl (d # ds) (game, states) =
     (case sok_move fl game d 0 states of
        (res, game', states') \<Rightarrow>
          if legal res then sok_moves fl ds (game', states') else None)"

text \<open>
  Modelled from the spec: the replay of a history on its level (section 4.3). Each symbol
  goes through \<open>attemptMove\<close> in order, from the level as it was loaded and an empty
  history; a move that is not legal makes the history inconsistent with the level,
  which is \<open>None\<close>.
\<close>

definition ledger_replay ::
    "cellflags \<Rightarrow> sokgame \<Rightarrow> string \<Rightarrow> (sokgame \<times> sokgamestates) option" where
  "ledger_replay fl level h = sok_moves fl (map symbol_dir h) (level, \<lparr>history = []\<rparr>)"

text \<open>
  Modelled from the spec: whether the last move of a history was a push. The symbol
  does not tell; it is found from the grid at replay time (section 4.3): the history
  without its last symbol is replayed on the level, and the last move is tried there.
\<close>

definition was_push :: "cellflags \<Rightarrow> sokgame \<Rightarrow> string \<Rightarrow> bool" where
  "was_push fl level h =
     (case ledger_replay fl level (butlast h) of
        None \<Rightarrow> False
      | Some (g, s) \<Rightarrow> pushed (fst (sok_move fl g (symbol_dir (last h)) 1 s)))"

text \<open>
  Modelled from the spec: \<open>sok_undo\<close> of the missing sok_core.c, the \<open>undoLastMove\<close> of
  section 4.2. Nothing happens on an empty history. Otherwise the last symbol is
  removed, the player steps back against its direction and, when the move was a push,
  the box goes from the cell in front of the player back to the cell the player leaves.
  \<open>level\<close> is the level the game was loaded from, \<open>gameslist[curlevel]\<close> in \<open>main\<close>: the
  history says that a move was a push only when it is replayed on its level.
\<close>

definition sok_undo ::
    "cellflags \<Rightarrow> sokgame \<Rightarrow> sokgame \<Rightarrow> sokgamestates \<Rightarrow> sokgame \<times> sokgamestates" where
  "sok_undo fl level game states =
     (if history states = [] then (game, states)
      else
        (let c = last (history states);
             (vx, vy) = vector (symbol_dir c);
             x = positionx game; y = positiony game;
             f' = (if was_push fl level (history states)
                   then setcell
                          (setcell (field game) (x + vx) (y + vy)
                             (field game (x + vx) (y + vy) AND NOT (field_atom fl)))
                          x y (field game x y OR field_atom fl)
                   else field game)
         in (game\<lparr>field := f', positionx := x - vx, positiony := y - vy\<rparr>,
             states\<lparr>history := butlast (history states)\<rparr>)))"

text \<open>
  Modelled from the spec: \<open>sok_resetstates\<close> of the missing sok_core.c, the part of
  \<open>reset\<close> that clears the history.
\<close>

definition sok_resetstates :: "sokgamestates \<Rightarrow> sokgamestates" where
  "sok_resetstates states = states\<lparr>history := []\<rparr>"

text \<open>
  Modelled from the spec: \<open>sok_history_getlen\<close> and \<open>sok_history_getpushes\<close> of the
  missing sok_core.c, the counters that \<open>draw_screen\<close> shows. There is one move for each
  symbol of the history. The pushes are counted while the history is replayed on its
  level, since a symbol does not tell a push from a plain move; a move that is not
  legal there changes nothing and counts for nothing.
\<close>

definition sok_history_getlen :: "string \<Rightarrow> nat" where
  "sok_history_getlen h = length h"

fun count_pushes :: "cellflags \<Rightarrow> SOKMOVE list \<Rightarrow> sokgame \<times> sokgamestates \<Rightarrow> nat" where
  "count_pushes fl [] gs = 0"
| "count_pushes fl (d # ds) (game, states) =
     (case sok_move fl game d 0 states of
        (res, game', states') \<Rightarrow>
          (if legal res \<and> pushed res then 1 else 0) + count_pushes fl ds (game', states'))"

definition sok_history_getpushes :: "cellflags \<Rightarrow> sokgame \<Rightarrow> string \<Rightarrow> nat" where
  "sok_history_getpushes fl level h =
     count_pushes fl (map symbol_dir h) (level, \<lparr>history = []\<rparr>)"


section \<open>The game loop of main (simplesok.c, 755-758 and 1601-1801)\<close>

text \<open>\<open>loadlevel\<close>: the \<open>memcpy\<close> of the whole \<open>struct sokgame\<close>, then the reset.\<close>

definition loadlevel ::
    "sokgame \<Rightarrow> sokgame \<Rightarrow> sokgamestates \<Rightarrow> sokgame \<times> sokgamestates" where
  "loadlevel togame fromgame states = (fromgame, sok_resetstates states)"

text \<open>
  The variables of \<open>main\<close> that the handling of a key reads and writes. \<open>shown\<close> is the
  list of the messages that \<open>displaytexture\<close> has put on the screen, the only signal the
  loop gives to the player besides the playfield itself.
\<close>

datatype texture = playfromclipboard | nosolution

record mainstate =
  game :: sokgame
  states :: sokgamestates
  playsolution :: int
  playsource :: "string option"
  exitflag :: int
  shown :: "texture list"

text \<open>
  The keys of the \<open>switch\<close> that move the player, undo, restart, paste a solution or
  replay the stored one. The other cases (zoom, dumps to the clipboard, save and load,
  help, display options, escape) are not modelled; \<open>KEY_UNKNOWN\<close> is a key with no case.
\<close>

datatype key =
  KEY_LEFT | KEY_RIGHT | KEY_UP | KEY_DOWN | KEY_BACKSPACE | KEY_R | KEY_CTRL_V | KEY_S |
  KEY_UNKNOWN

text \<open>
  The \<open>switch\<close> on the key. \<open>gamelevel\<close> is \<open>gameslist[curlevel]\<close>, \<open>clip\<close> what
  \<open>SDL_GetClipboardText\<close> returns and \<open>disp\<close> what \<open>displaytexture\<close> returns. The result
  is the new state with \<open>movedir\<close>. The call \<open>sok_undo(&game, states)\<close> of \<open>main\<close> is
  \<open>sok_undo\<close> on the game and the states, with the level that the game was loaded from.
\<close>

definition key_switch ::
    "cellflags \<Rightarrow> sokgame \<Rightarrow> key \<Rightarrow> string option \<Rightarrow> int \<Rightarrow> mainstate \<Rightarrow>
     mainstate \<times> SOKMOVE" where
  "key_switch fl gamelevel k clip disp st =
     (case k of
        KEY_LEFT \<Rightarrow> (st, sokmoveLEFT)
      | KEY_RIGHT \<Rightarrow> (st, sokmoveRIGHT)
      | KEY_UP \<Rightarrow> (st, sokmoveUP)
      | KEY_DOWN \<Rightarrow> (st, sokmoveDOWN)
      | KEY_BACKSPACE \<Rightarrow>
          (if playsolution st = 0
           then (case sok_undo fl gamelevel (game st) (states st) of
                   (g, s) \<Rightarrow> (st\<lparr>game := g, states := s\<rparr>, sokmoveNONE))
           else (st, sokmoveNONE))
      | KEY_R \<Rightarrow>
          (case loadlevel (game st) gamelevel (states st) of
             (g, s) \<Rightarrow> (st\<lparr>game := g, states := s, playsolution := 0\<rparr>, sokmoveNONE))
      | KEY_CTRL_V \<Rightarrow>
          (let solFromClipboard = trimstr clip in
           if isLegalSokoSolution solFromClipboard \<noteq> 0
           then (case solFromClipboard of
                   None \<Rightarrow> (st, sokmoveNONE)
                 | Some sol \<Rightarrow>
                     (case loadlevel (game st) gamelevel (states st) of
                        (g, s) \<Rightarrow>
                          (st\<lparr>game := g, states := s, exitflag := disp,
                              shown := shown st @ [playfromclipboard],
                              playsolution := 1, playsource := Some (unRLE sol)\<rparr>,
                           sokmoveNONE)))
           else (st, sokmoveNONE))
      | KEY_S \<Rightarrow>
          (if playsolution st = 0
           then (case solution (game st) of
                   Some sol \<Rightarrow>
                     (case loadlevel (game st) gamelevel (states st) of
                        (g, s) \<Rightarrow>
                          (st\<lparr>game := g, states := s, playsolution := 1,
                              playsource := Some (unRLE sol)\<rparr>,
                           sokmoveNONE))
                 | None \<Rightarrow>
                     (st\<lparr>exitflag := disp, shown := shown st @ [nosolution]\<rparr>,
                      sokmoveNONE))
           else (st, sokmoveNONE))
      | KEY_UNKNOWN \<Rightarrow> (st, sokmoveNONE))"

text \<open>
  Reading \<open>playsource[i]\<close>: the bytes of the string, then its terminator. A read past
  the terminator is outside the string that \<open>unRLE\<close> wrote.
\<close>

definition readbyte :: "string \<Rightarrow> int \<Rightarrow> char option" where
  "readbyte buf i =
     (if 0 \<le> i \<and> i < int (length buf) then Some (buf ! nat i)
      else if i = int (length buf) then Some NUL
      else None)"

datatype play_error = ReadPastTerminator | NullPlaysource

text \<open>
  The playback block (simplesok.c, 1712-1734), entered when \<open>playsolution > 0\<close>: the
  move is read at \<open>playsource[playsolution - 1]\<close>, \<open>playsolution\<close> advances, and goes
  back to 0 at the terminator. The result is \<open>movedir\<close> and the new \<open>playsolution\<close>.
\<close>

definition playback_block :: "string \<Rightarrow> int \<Rightarrow> play_error + (SOKMOVE \<times> int)" where
  "playback_block src ps =
     (case readbyte src (ps - 1) of
        None \<Rightarrow> Inl ReadPastTerminator
      | Some c \<Rightarrow>
          (case readbyte src (ps + 1 - 1) of
             None \<Rightarrow> Inl ReadPastTerminator
           | Some n \<Rightarrow> Inr (symbol_dir c, if n = NUL then 0 else ps + 1)))"

text \<open>
  The move block (simplesok.c, 1735-1799): the dry run, which changes nothing, and the
  committed move. The flag of the result tells that the level is solved and the loop
  is left for the selection of the next level.
\<close>

definition move_block :: "cellflags \<Rightarrow> mainstate \<Rightarrow> SOKMOVE \<Rightarrow> mainstate \<times> bool" where
  "move_block fl st movedir =
     (case sok_move fl (game st) movedir 1 (states st) of
        (res1, g1, s1) \<Rightarrow>
          (case sok_move fl g1 movedir 0 s1 of
             (res, g, s) \<Rightarrow> (st\<lparr>game := g, states := s\<rparr>, legal res \<and> solved res)))"

text \<open>The handling of one key press: the \<open>switch\<close>, the playback block, the move block.\<close>

definition keydown ::
    "cellflags \<Rightarrow> sokgame \<Rightarrow> key \<Rightarrow> string option \<Rightarrow> int \<Rightarrow> mainstate \<Rightarrow>
     play_error + (mainstate \<times> bool)" where
  "keydown fl gamelevel k clip disp st =
     (case key_switch fl gamelevel k clip disp st of
        (st1, movedir1) \<Rightarrow>
          (case (if playsolution st1 > 0
                 then (case playsource st1 of
                         None \<Rightarrow> Inl NullPlaysource
                       | Some src \<Rightarrow>
                           (case playback_block src (playsolution st1) of
                              Inl e \<Rightarrow> Inl e
                            | Inr (m, ps) \<Rightarrow> Inr (st1\<lparr>playsolution := ps\<rparr>, m)))
                 else Inr (st1, movedir1)) of
             Inl e \<Rightarrow> Inl e
           | Inr (st2, movedir) \<Rightarrow>
               if movedir \<noteq> sokmoveNONE then Inr (move_block fl st2 movedir)
               else Inr (st2, False)))"

text \<open>
  The moves of a whole playback: the playback block run from \<open>playsolution\<close> until it
  is back at 0, with no other key in between.
\<close>

function replay :: "string \<Rightarrow> int \<Rightarrow> play_error + SOKMOVE list" where
  "replay src ps =
     (if ps \<le> 0 then Inr []
      else (case playback_block src ps of
              Inl e \<Rightarrow> Inl e
            | Inr (m, ps') \<Rightarrow>
                (case replay src ps' of
                   Inl e \<Rightarrow> Inl e
                 | Inr ms \<Rightarrow> Inr (m # ms))))"
  by pat_completeness auto
termination
proof (relation "measure (\<lambda>(src, ps). if ps \<le> 0 then 0 else nat (int (length src) + 2 - ps))")
  show "wf (measure (\<lambda>(src, ps). if ps \<le> 0 then 0 else nat (int (length src) + 2 - ps)))"
    by simp
next
  fix src :: string and ps :: int and r and m :: SOKMOVE and ps' :: int
  assume "\<not> ps \<le> 0" and "playback_block src ps = Inr r" and "(m, ps') = r"
  then show "((src, ps'), src, ps)
       \<in> measure (\<lambda>(src, ps). if ps \<le> 0 then 0 else nat (int (length src) + 2 - ps))"
    by (auto simp add: playback_block_def readbyte_def split: option.splits if_splits)
qed

text \<open>The letter of the other case, for a direction letter.\<close>

definition other_case :: "char \<Rightarrow> char" where
  "other_case c =
     (if c = CHR ''u'' then CHR ''U'' else if c = CHR ''U'' then CHR ''u''
      else if c = CHR ''r'' then CHR ''R'' else if c = CHR ''R'' then CHR ''r''
      else if c = CHR ''d'' then CHR ''D'' else if c = CHR ''D'' then CHR ''d''
      else if c = CHR ''l'' then CHR ''L'' else if c = CHR ''L'' then CHR ''l''
      else c)"

text \<open>\<open>t\<close> is \<open>s\<close> with some of its direction letters replaced by their other case.\<close>

definition same_letter :: "char \<Rightarrow> char \<Rightarrow> bool" where
  "same_letter a b = (b = a \<or> b = other_case a)"

definition case_variant :: "string \<Rightarrow> string \<Rightarrow> bool" where
  "case_variant s t = list_all2 same_letter s t"

section \<open>A level for the examples\<close>

text \<open>
  The level of Scenario A of the specification, a player, a box and a goal in a row
  between walls, with the flags at the bits 0 to 3. The loader of levels is not part of
  the sources: the game is written down cell by cell.
  \<^verbatim>\<open>
  #####
  #@$.#
  #####
  \<close>
\<close>

definition xsb_flags :: cellflags where
  "xsb_flags = \<lparr>field_floor = 1, field_atom = 2, field_goal = 4, field_wall = 8\<rparr>"

definition scenario_A :: sokgame where
  "scenario_A =
     \<lparr>field_width = 5, field_height = 3,
      field = (\<lambda>x y.
        if y = 1 \<and> x = 1 then 1
        else if y = 1 \<and> x = 2 then 3
        else if y = 1 \<and> x = 3 then 5
        else if 0 \<le> x \<and> x < 5 \<and> 0 \<le> y \<and> y < 3 then 8
        else 0),
      positionx = 1, positiony = 1, crc32 = 0, solution = None\<rparr>"

definition fresh_states :: sokgamestates where
  "fresh_states = \<lparr>history = []\<rparr>"

definition idle :: mainstate where
  "idle = \<lparr>game = scenario_A, states = fresh_states, playsolution = 0,
           playsource = None, exitflag = 0, shown = []\<rparr>"

section \<open>Properties of unRLE\<close>

lemma unRLE_emit_fst: "fst (unRLE_emit c n (res, a)) = res @ replicate n c"
  by (induction n arbitrary: res a) (simp_all add: replicate_app_Cons_same)

lemma unRLE_emit_room: "length res + 3 \<le> a \<Longrightarrow>
    length (fst (unRLE_emit c n (res, a))) + 3 \<le> snd (unRLE_emit c n (res, a))"
  by (induction n arbitrary: res a) auto

lemma unRLE_loop_fst: "fst (unRLE_loop s n (res, a)) = res @ expand s n"
proof (induction s arbitrary: n res a)
  case Nil
  show ?case by simp
next
  case (Cons c cs)
  show ?case
  proof (cases "c = NUL \<or> is_digit c")
    case True
    then show ?thesis using Cons.IH by auto
  next
    case False
    obtain res' a' where e: "unRLE_emit c n (res, a) = (res', a')"
      by (cases "unRLE_emit c n (res, a)")
    have "res' = res @ replicate n c"
      using unRLE_emit_fst [of c n res a] e by simp
    then show ?thesis using False e Cons.IH [of 1 res' a'] by simp
  qed
qed

lemma unRLE_expand: "unRLE s = expand s 1"
  by (simp add: unRLE_def unRLE_loop_fst)

text \<open>
  The writes at \<open>res[reslen++]\<close> and the final write of the terminator stay inside the
  \<open>resalloc\<close> bytes of the buffer.
\<close>

lemma unRLE_loop_room:
  "length res + 3 \<le> a \<Longrightarrow>
   length (fst (unRLE_loop s n (res, a))) + 3 \<le> snd (unRLE_loop s n (res, a))"
proof (induction s arbitrary: n res a)
  case Nil
  then show ?case by simp
next
  case (Cons c cs)
  obtain res' a' where e: "unRLE_emit c n (res, a) = (res', a')"
    by (cases "unRLE_emit c n (res, a)")
  have "length res' + 3 \<le> a'"
    using unRLE_emit_room [OF Cons.prems, of c n] e by simp
  then show ?case using Cons e by simp
qed

lemma unRLE_terminator_fits:
  "length (fst (unRLE_loop xsb 1 ([], 16))) < snd (unRLE_loop xsb 1 ([], 16))"
  using unRLE_loop_room [of "[]" 16 xsb 1] by simp

text \<open>
  C1. Decoding the run-length-encoded string "3u2r" gives exactly "uuurr". In general a
  digit sets the repeat count of the next byte that is not a digit, which is written that
  many times, and a byte with no digit before it is written once.
\<close>

theorem unRLE_scenario_B:
  "unRLE ''3u2r'' = ''uuurr'' \<and>
   (\<forall>d c rest. is_digit d \<and> \<not> is_digit c \<and> c \<noteq> NUL \<longrightarrow>
      unRLE (d # c # rest) = replicate (digit_val d) c @ unRLE rest) \<and>
   (\<forall>c rest. \<not> is_digit c \<and> c \<noteq> NUL \<longrightarrow> unRLE (c # rest) = c # unRLE rest)"
proof -
  have "unRLE ''3u2r'' = ''uuurr''"
    unfolding unRLE_expand by code_simp
  moreover have "\<forall>d c rest. is_digit d \<and> \<not> is_digit c \<and> c \<noteq> NUL \<longrightarrow>
      unRLE (d # c # rest) = replicate (digit_val d) c @ unRLE rest"
    by (auto simp add: unRLE_expand is_digit_def NUL_def)
  moreover have "\<forall>c rest. \<not> is_digit c \<and> c \<noteq> NUL \<longrightarrow> unRLE (c # rest) = c # unRLE rest"
    by (simp add: unRLE_expand)
  ultimately show ?thesis by blast
qed

theorem unRLE_scenario_B_witness:
  "is_digit CHR ''4'' \<and> \<not> is_digit CHR ''d'' \<and> CHR ''d'' \<noteq> NUL \<and>
   unRLE ''4dl'' = replicate (digit_val CHR ''4'') CHR ''d'' @ unRLE ''l''"
proof -
  have h: "is_digit CHR ''4'' \<and> \<not> is_digit CHR ''d'' \<and> CHR ''d'' \<noteq> NUL"
    by (simp add: is_digit_def NUL_def)
  have "unRLE (CHR ''4'' # CHR ''d'' # ''l'') =
      replicate (digit_val CHR ''4'') CHR ''d'' @ unRLE ''l''"
    using unRLE_scenario_B h by blast
  then show ?thesis using h by simp
qed

section \<open>Properties of isLegalSokoSolution\<close>

lemma cstr_Nil: "cstr [] = []"
  by (simp add: cstr_def)

lemma cstr_Cons: "cstr (c # cs) = (if c = NUL then [] else c # cstr cs)"
  by (simp add: cstr_def)

lemma next_is_NUL_cstr: "next_is_NUL cs = (cstr cs = [])"
  by (cases cs) (simp_all add: cstr_Nil cstr_Cons)

lemma digit_not_NUL: "is_digit c \<Longrightarrow> c \<noteq> NUL"
  by (auto simp add: is_digit_def NUL_def)

lemma dir_not_NUL: "is_dir c \<Longrightarrow> c \<noteq> NUL"
  by (auto simp add: is_dir_def NUL_def)

lemma legal_loop_char:
  "legal_loop s =
     (if (\<forall>c \<in> set (cstr s). is_digit c \<or> is_dir c) \<and>
         (cstr s = [] \<or> \<not> is_digit (last (cstr s)))
      then 1 else 0)"
proof (induction s)
  case Nil
  show ?case by (simp add: cstr_Nil)
next
  case (Cons c cs)
  show ?case
  proof (cases "is_digit c")
    case True
    then show ?thesis
      using Cons.IH digit_not_NUL [of c]
      by (simp add: cstr_Cons next_is_NUL_cstr)
  next
    case nd: False
    show ?thesis
    proof (cases "is_dir c")
      case True
      then show ?thesis
        using Cons.IH nd dir_not_NUL [of c] by (simp add: cstr_Cons)
    next
      case False
      then show ?thesis using nd by (simp add: cstr_Cons)
    qed
  qed
qed

text \<open>
  C2, as amended. isLegalSokoSolution returns 1 when the text is not empty, each of its
  characters is a digit or one of U/D/L/R/u/d/l/r, and its last character is not a
  digit; it returns 0 otherwise. A digit followed by another digit is accepted.
\<close>

theorem isLegalSokoSolution_char:
  "isLegalSokoSolution (Some s) =
     (if cstr s \<noteq> [] \<and> (\<forall>c \<in> set (cstr s). is_digit c \<or> is_dir c) \<and>
         \<not> is_digit (last (cstr s))
      then 1 else 0)"
  by (auto simp add: legal_loop_char)

theorem isLegalSokoSolution_char_witness:
  "cstr ''2ur'' \<noteq> [] \<and> list_all (\<lambda>c. is_digit c \<or> is_dir c) (cstr ''2ur'') \<and>
   \<not> is_digit (last (cstr ''2ur'')) \<and> isLegalSokoSolution (Some ''2ur'') = 1"
proof -
  have h: "cstr ''2ur'' \<noteq> [] \<and> (\<forall>c \<in> set (cstr ''2ur''). is_digit c \<or> is_dir c) \<and>
      \<not> is_digit (last (cstr ''2ur''))"
    by (simp add: cstr_Cons cstr_Nil NUL_def is_digit_def is_dir_def)
  then show ?thesis
    using isLegalSokoSolution_char [of "''2ur''"] by (simp add: list_all_iff)
qed

text \<open>
  C2, as stated, fails: "12u" has a digit that is followed by a digit, and the code
  accepts it; the empty string has no character outside the alphabet and no digit, and
  the code rejects it.
\<close>

theorem isLegalSokoSolution_spec_counterexample:
  "isLegalSokoSolution (Some ''12u'') = 1 \<and> \<not> spec_legal ''12u'' \<and>
   isLegalSokoSolution (Some '''') = 0 \<and> spec_legal ''''"
  by code_simp

text \<open>
  C3. The solution text "3", a digit with nothing after it, is not legal:
  isLegalSokoSolution returns 0.
\<close>

theorem isLegalSokoSolution_scenario_C:
  "isLegalSokoSolution (Some ''3'') = 0"
  by code_simp

text \<open>
  C9. isLegalSokoSolution returns 0 for the NULL pointer and for the empty string, so
  every string it accepts has at least one character.
\<close>

theorem isLegalSokoSolution_degenerate:
  "isLegalSokoSolution None = 0 \<and> isLegalSokoSolution (Some '''') = 0 \<and>
   (\<forall>s. isLegalSokoSolution (Some s) \<noteq> 0 \<longrightarrow> 1 \<le> length (cstr s))"
  by (auto simp add: cstr_Nil Suc_le_eq)

theorem isLegalSokoSolution_degenerate_witness:
  "isLegalSokoSolution (Some ''u'') \<noteq> 0 \<and> 1 \<le> length (cstr ''u'')"
proof -
  have h: "isLegalSokoSolution (Some ''u'') \<noteq> 0"
    by (simp add: cstr_Cons cstr_Nil NUL_def is_digit_def is_dir_def)
  then show ?thesis using isLegalSokoSolution_degenerate by blast
qed

section \<open>A digit overwrites the count\<close>

lemma expand_digits:
  "list_all is_digit ds \<Longrightarrow> is_digit d \<Longrightarrow> expand (ds @ d # rest) n = expand (d # rest) m"
  by (induction ds arbitrary: n) (auto simp add: digit_not_NUL)

lemma expand_append_cong:
  "(\<And>n. expand a n = expand b n) \<Longrightarrow> expand (pre @ a) n = expand (pre @ b) n"
  by (induction pre arbitrary: n) auto

text \<open>
  C10. In unRLE each digit replaces the pending count: a run of digits before a symbol
  counts as its last digit alone ("12u" gives "uu"), anywhere in the input, and after a
  '0' the next symbol is written zero times ("0u" gives the empty string).
\<close>

theorem unRLE_digit_overwrites:
  "unRLE ''12u'' = ''uu'' \<and> unRLE ''0u'' = '''' \<and>
   (\<forall>pre ds d rest. list_all is_digit ds \<and> is_digit d \<longrightarrow>
      unRLE (pre @ ds @ d # rest) = unRLE (pre @ d # rest)) \<and>
   (\<forall>c rest. \<not> is_digit c \<and> c \<noteq> NUL \<longrightarrow> unRLE (CHR ''0'' # c # rest) = unRLE rest)"
proof -
  have a: "unRLE ''12u'' = ''uu''"
    unfolding unRLE_expand by code_simp
  have b: "unRLE ''0u'' = ''''"
    unfolding unRLE_expand by code_simp
  have c: "\<forall>pre ds d rest. list_all is_digit ds \<and> is_digit d \<longrightarrow>
      unRLE (pre @ ds @ d # rest) = unRLE (pre @ d # rest)"
    unfolding unRLE_expand
    by (intro allI impI expand_append_cong expand_digits) simp_all
  have z: "is_digit CHR ''0'' \<and> CHR ''0'' \<noteq> NUL \<and> digit_val CHR ''0'' = 0"
    by (simp add: is_digit_def NUL_def digit_val_def)
  have d: "\<forall>c rest. \<not> is_digit c \<and> c \<noteq> NUL \<longrightarrow> unRLE (CHR ''0'' # c # rest) = unRLE rest"
    unfolding unRLE_expand using z by simp
  from a b c d show ?thesis by blast
qed

theorem unRLE_digit_overwrites_witness:
  "list_all is_digit ''97'' \<and> is_digit CHR ''2'' \<and> \<not> is_digit CHR ''l'' \<and> CHR ''l'' \<noteq> NUL \<and>
   unRLE (''u'' @ ''97'' @ CHR ''2'' # ''rd'') = unRLE (''u'' @ CHR ''2'' # ''rd'') \<and>
   unRLE (CHR ''0'' # CHR ''l'' # ''d'') = unRLE ''d''"
proof -
  have h: "list_all is_digit ''97'' \<and> is_digit CHR ''2'' \<and> \<not> is_digit CHR ''l'' \<and>
      CHR ''l'' \<noteq> NUL"
    by (simp add: is_digit_def NUL_def)
  then show ?thesis using unRLE_digit_overwrites by blast
qed

section \<open>The case of a direction letter\<close>

lemma same_letter_facts:
  assumes "same_letter a b"
  shows "is_digit b = is_digit a" and "(b = NUL) = (a = NUL)" and "is_dir b = is_dir a"
    and "symbol_dir b = symbol_dir a" and "is_digit a \<Longrightarrow> b = a"
  using assms
  by (auto simp add: same_letter_def other_case_def is_digit_def NUL_def is_dir_def symbol_dir_def
      split: if_splits)

lemma same_letter_NUL: "same_letter a b \<Longrightarrow> (b = NUL) = (a = NUL)"
  by (rule same_letter_facts(2))

lemma same_letter_dir: "same_letter a b \<Longrightarrow> symbol_dir b = symbol_dir a"
  by (rule same_letter_facts(4))

lemma same_letter_next_is_NUL: "list_all2 same_letter s t \<Longrightarrow> next_is_NUL s = next_is_NUL t"
  by (cases s; cases t) (auto dest: same_letter_NUL)

lemma same_letter_legal_loop: "list_all2 same_letter s t \<Longrightarrow> legal_loop s = legal_loop t"
proof (induction rule: list_all2_induct)
  case Nil
  show ?case by simp
next
  case (Cons a s b t)
  then show ?case
    using same_letter_facts(1-3) [OF Cons.hyps(1)] same_letter_next_is_NUL [OF Cons.hyps(2)] by simp
qed

lemma same_letter_cstr_length: "list_all2 same_letter s t \<Longrightarrow> length (cstr s) = length (cstr t)"
proof (induction rule: list_all2_induct)
  case Nil
  show ?case by simp
next
  case (Cons a s b t)
  then show ?case using same_letter_facts(2) [OF Cons.hyps(1)] by (simp add: cstr_Cons)
qed

lemma same_letter_replicate: "same_letter a b \<Longrightarrow> list_all2 same_letter (replicate n a) (replicate n b)"
  by (induction n) simp_all

lemma same_letter_expand: "list_all2 same_letter s t \<Longrightarrow> list_all2 same_letter (expand s n) (expand t n)"
proof (induction arbitrary: n rule: list_all2_induct)
  case Nil
  show ?case by simp
next
  case (Cons a s b t)
  show ?case
  proof (cases "is_digit a")
    case True
    then show ?thesis
      using same_letter_facts(1,2,5) [OF Cons.hyps(1)] Cons.IH by simp
  next
    case False
    then show ?thesis
      using same_letter_facts(1,2) [OF Cons.hyps(1)] Cons.IH [of 1] same_letter_replicate [OF Cons.hyps(1), of n]
      by (auto intro: list_all2_appendI)
  qed
qed

lemma same_letter_readbyte:
  assumes "list_all2 same_letter p q"
  shows "rel_option same_letter (readbyte p i) (readbyte q i)"
proof -
  have l: "length p = length q" using assms by (rule list_all2_lengthD)
  have n: "same_letter NUL NUL" by (simp add: same_letter_def)
  show ?thesis
    using assms l n by (auto simp add: readbyte_def list_all2_nthD)
qed

lemma same_letter_playback_block:
  assumes "list_all2 same_letter p q"
  shows "playback_block p ps = playback_block q ps"
proof -
  have a: "rel_option same_letter (readbyte p (ps - 1)) (readbyte q (ps - 1))"
    using assms by (rule same_letter_readbyte)
  have b: "rel_option same_letter (readbyte p (ps + 1 - 1)) (readbyte q (ps + 1 - 1))"
    using assms by (rule same_letter_readbyte)
  show ?thesis
    using a b unfolding playback_block_def
    by (auto simp add: option_rel_Some1 option_rel_Some2 same_letter_dir split: option.splits
        dest: same_letter_NUL)
qed

lemma replay_cong:
  "(\<And>ps. playback_block p ps = playback_block q ps) \<Longrightarrow> replay p ps = replay q ps"
proof (induction p ps rule: replay.induct)
  case (1 src ps)
  show ?case
  proof (cases "ps \<le> 0")
    case True
    then show ?thesis by simp
  next
    case False
    show ?thesis
    proof (cases "playback_block src ps")
      case (Inl e)
      then show ?thesis using False "1.prems" [of ps] by simp
    next
      case (Inr r)
      obtain m ps' where r: "r = (m, ps')" by (cases r)
      have "replay src ps' = replay q ps'"
        using "1.IH" [OF False Inr r [symmetric]] "1.prems" by simp
      then show ?thesis using False Inr r "1.prems" [of ps] by simp
    qed
  qed
qed

text \<open>
  C7. The case of a direction letter changes neither the validation nor the replay: a
  string and the same string with some direction letters in their other case are both
  legal or both not, and the playback of their decoded texts issues the same moves.
  'u' and 'U' move up, 'r' and 'R' right, 'd' and 'D' down, 'l' and 'L' left.
\<close>

theorem direction_case_insensitive:
  assumes "case_variant s t"
  shows "isLegalSokoSolution (Some s) = isLegalSokoSolution (Some t) \<and>
         replay (unRLE s) 1 = replay (unRLE t) 1 \<and>
         symbol_dir CHR ''u'' = sokmoveUP \<and> symbol_dir CHR ''U'' = sokmoveUP \<and>
         symbol_dir CHR ''r'' = sokmoveRIGHT \<and> symbol_dir CHR ''R'' = sokmoveRIGHT \<and>
         symbol_dir CHR ''d'' = sokmoveDOWN \<and> symbol_dir CHR ''D'' = sokmoveDOWN \<and>
         symbol_dir CHR ''l'' = sokmoveLEFT \<and> symbol_dir CHR ''L'' = sokmoveLEFT"
proof -
  have c: "list_all2 same_letter s t" using assms by (simp add: case_variant_def)
  have v: "isLegalSokoSolution (Some s) = isLegalSokoSolution (Some t)"
    using same_letter_legal_loop [OF c] same_letter_cstr_length [OF c] by simp
  have "list_all2 same_letter (unRLE s) (unRLE t)"
    unfolding unRLE_expand using c by (rule same_letter_expand)
  then have r: "replay (unRLE s) 1 = replay (unRLE t) 1"
    by (intro replay_cong same_letter_playback_block)
  have d: "symbol_dir CHR ''u'' = sokmoveUP \<and> symbol_dir CHR ''U'' = sokmoveUP \<and>
         symbol_dir CHR ''r'' = sokmoveRIGHT \<and> symbol_dir CHR ''R'' = sokmoveRIGHT \<and>
         symbol_dir CHR ''d'' = sokmoveDOWN \<and> symbol_dir CHR ''D'' = sokmoveDOWN \<and>
         symbol_dir CHR ''l'' = sokmoveLEFT \<and> symbol_dir CHR ''L'' = sokmoveLEFT"
    by (simp add: symbol_dir_def)
  from v r d show ?thesis by blast
qed

theorem direction_case_insensitive_witness:
  "case_variant ''2uRl'' ''2Url'' \<and>
   isLegalSokoSolution (Some ''2uRl'') = 1 \<and> isLegalSokoSolution (Some ''2Url'') = 1 \<and>
   replay (unRLE ''2uRl'') 1 = Inr [sokmoveUP, sokmoveUP, sokmoveRIGHT, sokmoveLEFT] \<and>
   replay (unRLE ''2Url'') 1 = Inr [sokmoveUP, sokmoveUP, sokmoveRIGHT, sokmoveLEFT]"
proof -
  have h: "case_variant ''2uRl'' ''2Url''"
    by (simp add: case_variant_def same_letter_def other_case_def)
  have a: "isLegalSokoSolution (Some ''2Url'') = 1"
    by code_simp
  have b: "replay (unRLE ''2Url'') 1 = Inr [sokmoveUP, sokmoveUP, sokmoveRIGHT, sokmoveLEFT]"
    unfolding unRLE_expand by code_simp
  show ?thesis using direction_case_insensitive [OF h] h a b by simp
qed

section \<open>Cell flags as bits\<close>

lemma w8_eq_iff: "((a::8 word) = b) = (\<forall>n<8. bit a n = bit b n)"
  by (auto simp add: bit_eq_iff[of a b] dest: bit_imp_le_length)

lemma single_bit_ex: "single_bit w \<Longrightarrow> \<exists>k<8. w = 2 ^ k"
proof -
  assume "single_bit w"
  then consider "w = 1" | "w = 2" | "w = 4" | "w = 8" | "w = 16" | "w = 32" | "w = 64" | "w = 128"
    by (auto simp add: single_bit_def)
  then show ?thesis
  proof cases
    case 1 then show ?thesis by (intro exI[of _ 0]) simp
  next
    case 2 then show ?thesis by (intro exI[of _ 1]) simp
  next
    case 3 then show ?thesis by (intro exI[of _ 2]) simp
  next
    case 4 then show ?thesis by (intro exI[of _ 3]) simp
  next
    case 5 then show ?thesis by (intro exI[of _ 4]) simp
  next
    case 6 then show ?thesis by (intro exI[of _ 5]) simp
  next
    case 7 then show ?thesis by (intro exI[of _ 6]) simp
  next
    case 8 then show ?thesis by (intro exI[of _ 7]) simp
  qed
qed

lemma bit_single: "k < 8 \<Longrightarrow> bit (2 ^ k :: 8 word) n = (n = k)"
  by (auto simp add: bit_exp_iff)

lemma has_flag_bit: "k < 8 \<Longrightarrow> has_flag v (2 ^ k) = bit v k"
  by (auto simp add: has_flag_def w8_eq_iff bit_single bit_and_iff)



section \<open>Undo reverses a move\<close>















section \<open>Restart and paste in the game loop\<close>

text \<open>
  C5. Whatever the state of the game, the R key makes the working game equal to the
  level as it was loaded, field by field, and empties the history, so that both
  counters are 0; a playback in progress stops.
\<close>

theorem restart_restores_level:
  "\<exists>st'. keydown fl gamelevel KEY_R clip disp st = Inr (st', False) \<and>
         game st' = gamelevel \<and> history (states st') = [] \<and>
         sok_history_getlen (history (states st')) = 0 \<and>
         sok_history_getpushes fl gamelevel (history (states st')) = 0 \<and>
         playsolution st' = 0"
  by (simp add: keydown_def key_switch_def loadlevel_def sok_resetstates_def
      sok_history_getlen_def sok_history_getpushes_def)

theorem restart_restores_level_witness:
  "\<exists>st'. keydown xsb_flags scenario_A KEY_R None 0
           (idle\<lparr>states := \<lparr>history = ''RL''\<rparr>, playsolution := 2\<rparr>) = Inr (st', False) \<and>
         game st' = scenario_A \<and> history (states st') = [] \<and>
         sok_history_getlen (history (states st')) = 0 \<and>
         sok_history_getpushes xsb_flags scenario_A (history (states st')) = 0 \<and>
         playsolution st' = 0"
  using restart_restores_level
    [of xsb_flags scenario_A None 0 "idle\<lparr>states := \<lparr>history = ''RL''\<rparr>, playsolution := 2\<rparr>"]
  .

lemma legal_result: "isLegalSokoSolution x = 0 \<or> isLegalSokoSolution x = 1"
  by (cases x) (simp_all add: legal_loop_char)

text \<open>
  C4, as amended. A text that fails the validation makes isLegalSokoSolution return 0,
  the one value it has for every cause, and the paste of such a text is ignored: the
  key press does what a key without a binding does, and outside a playback it leaves
  the game, the history, the exit flag and the messages on the screen as they were.
\<close>

theorem invalid_paste_ignored:
  assumes "isLegalSokoSolution (trimstr clip) = 0"
  shows "keydown fl gamelevel KEY_CTRL_V clip disp st =
           keydown fl gamelevel KEY_UNKNOWN clip disp st \<and>
         (playsolution st \<le> 0 \<longrightarrow>
           keydown fl gamelevel KEY_CTRL_V clip disp st = Inr (st, False)) \<and>
         (\<forall>x. isLegalSokoSolution x = 0 \<or> isLegalSokoSolution x = 1)"
  using assms legal_result by (simp add: keydown_def key_switch_def)

theorem invalid_paste_ignored_witness:
  "isLegalSokoSolution (trimstr (Some ''ulx '')) = 0 \<and> playsolution idle \<le> 0 \<and>
   keydown xsb_flags scenario_A KEY_CTRL_V (Some ''ulx '') 0 idle =
     keydown xsb_flags scenario_A KEY_UNKNOWN (Some ''ulx '') 0 idle \<and>
   keydown xsb_flags scenario_A KEY_CTRL_V (Some ''ulx '') 0 idle = Inr (idle, False)"
proof -
  have h: "isLegalSokoSolution (trimstr (Some ''ulx '')) = 0"
    by code_simp
  have p: "playsolution idle \<le> 0"
    by (simp add: idle_def)
  note th = invalid_paste_ignored [OF h, of xsb_flags scenario_A 0 idle]
  from th h p show ?thesis by blast
qed

text \<open>
  C4, as stated, fails: the paste of "3", which is not a legal solution, shows no
  message and sets no flag; the state after the key press is the state before it.
\<close>

theorem invalid_paste_counterexample:
  "isLegalSokoSolution (trimstr (Some ''3'')) = 0 \<and> shown idle = [] \<and> exitflag idle = 0 \<and>
   keydown xsb_flags scenario_A KEY_CTRL_V (Some ''3'') 0 idle = Inr (idle, False)"
proof -
  have "isLegalSokoSolution (trimstr (Some ''3'')) = 0" by code_simp
  then show ?thesis
    by (simp add: keydown_def key_switch_def idle_def)
qed

section \<open>The dump of the grid\<close>

lemma independent_bitsD:
  assumes "independent_bits fl"
  obtains kf ka kg kw where
    "kf < 8" "ka < 8" "kg < 8" "kw < 8"
    "field_floor fl = 2 ^ kf" "field_atom fl = 2 ^ ka"
    "field_goal fl = 2 ^ kg" "field_wall fl = 2 ^ kw"
    "distinct [kf, ka, kg, kw]"
proof -
  obtain kf where f: "kf < 8" "field_floor fl = 2 ^ kf"
    using assms single_bit_ex unfolding independent_bits_def by blast
  obtain ka where a: "ka < 8" "field_atom fl = 2 ^ ka"
    using assms single_bit_ex unfolding independent_bits_def by blast
  obtain kg where g: "kg < 8" "field_goal fl = 2 ^ kg"
    using assms single_bit_ex unfolding independent_bits_def by blast
  obtain kw where w: "kw < 8" "field_wall fl = 2 ^ kw"
    using assms single_bit_ex unfolding independent_bits_def by blast
  have "distinct [kf, ka, kg, kw]"
    using assms f a g w unfolding independent_bits_def by auto
  then show ?thesis using that f a g w by blast
qed

lemma only_flags_bit:
  assumes "kf < 8" "ka < 8" "kg < 8" "kw < 8"
    "field_floor fl = 2 ^ kf" "field_atom fl = 2 ^ ka"
    "field_goal fl = 2 ^ kg" "field_wall fl = 2 ^ kw"
  shows "only_flags fl v = (\<forall>n<8. bit v n \<longrightarrow> n = kf \<or> n = ka \<or> n = kg \<or> n = kw)"
  using assms
  by (auto simp add: only_flags_def w8_eq_iff bit_single bit_and_iff bit_or_iff bit_not_iff)

lemma cell_cases_bits:
  fixes v :: "8 word"
  assumes k: "kf < 8" "ka < 8" "kg < 8" "kw < 8" and d: "distinct [kf, ka, kg, kw]"
    and b: "\<forall>n<8. bit v n \<longrightarrow> n = kf \<or> n = ka \<or> n = kg \<or> n = kw"
  shows "(v AND NOT (2 ^ kf) = 2 ^ kw) = (bit v kw \<and> \<not> bit v ka \<and> \<not> bit v kg)"
    and "(v AND NOT (2 ^ kf) = (2 ^ ka OR 2 ^ kg)) = (\<not> bit v kw \<and> bit v ka \<and> bit v kg)"
    and "(v AND NOT (2 ^ kf) = 2 ^ ka) = (\<not> bit v kw \<and> bit v ka \<and> \<not> bit v kg)"
    and "(v AND NOT (2 ^ kf) = 2 ^ kg) = (\<not> bit v kw \<and> \<not> bit v ka \<and> bit v kg)"
proof -
  show "(v AND NOT (2 ^ kf) = 2 ^ kw) = (bit v kw \<and> \<not> bit v ka \<and> \<not> bit v kg)"
    using k d b
    by (simp add: w8_eq_iff bit_single bit_and_iff bit_or_iff bit_not_iff) metis
  show "(v AND NOT (2 ^ kf) = (2 ^ ka OR 2 ^ kg)) = (\<not> bit v kw \<and> bit v ka \<and> bit v kg)"
    using k d b
    by (simp add: w8_eq_iff bit_single bit_and_iff bit_or_iff bit_not_iff) metis
  show "(v AND NOT (2 ^ kf) = 2 ^ ka) = (\<not> bit v kw \<and> bit v ka \<and> \<not> bit v kg)"
    using k d b
    by (simp add: w8_eq_iff bit_single bit_and_iff bit_or_iff bit_not_iff) metis
  show "(v AND NOT (2 ^ kf) = 2 ^ kg) = (\<not> bit v kw \<and> \<not> bit v ka \<and> bit v kg)"
    using k d b
    by (simp add: w8_eq_iff bit_single bit_and_iff bit_or_iff bit_not_iff) metis
qed

lemma cell_cases:
  assumes i: "independent_bits fl" and o: "only_flags fl v"
  shows "(v AND NOT (field_floor fl) = field_wall fl) =
           (has_flag v (field_wall fl) \<and> \<not> has_flag v (field_atom fl) \<and>
            \<not> has_flag v (field_goal fl))"
    and "(v AND NOT (field_floor fl) = (field_atom fl OR field_goal fl)) =
           (\<not> has_flag v (field_wall fl) \<and> has_flag v (field_atom fl) \<and>
            has_flag v (field_goal fl))"
    and "(v AND NOT (field_floor fl) = field_atom fl) =
           (\<not> has_flag v (field_wall fl) \<and> has_flag v (field_atom fl) \<and>
            \<not> has_flag v (field_goal fl))"
    and "(v AND NOT (field_floor fl) = field_goal fl) =
           (\<not> has_flag v (field_wall fl) \<and> \<not> has_flag v (field_atom fl) \<and>
            has_flag v (field_goal fl))"
proof -
  from i obtain kf ka kg kw where k:
    "kf < 8" "ka < 8" "kg < 8" "kw < 8"
    and e: "field_floor fl = 2 ^ kf" "field_atom fl = 2 ^ ka"
    "field_goal fl = 2 ^ kg" "field_wall fl = 2 ^ kw"
    and d: "distinct [kf, ka, kg, kw]"
    by (rule independent_bitsD)
  have b: "\<forall>n<8. bit v n \<longrightarrow> n = kf \<or> n = ka \<or> n = kg \<or> n = kw"
    using o only_flags_bit [OF k e] by simp
  note c = cell_cases_bits [OF k d b]
  show "(v AND NOT (field_floor fl) = field_wall fl) =
           (has_flag v (field_wall fl) \<and> \<not> has_flag v (field_atom fl) \<and>
            \<not> has_flag v (field_goal fl))"
    unfolding e using c(1) k by (simp only: has_flag_bit)
  show "(v AND NOT (field_floor fl) = (field_atom fl OR field_goal fl)) =
           (\<not> has_flag v (field_wall fl) \<and> has_flag v (field_atom fl) \<and>
            has_flag v (field_goal fl))"
    unfolding e using c(2) k by (simp only: has_flag_bit)
  show "(v AND NOT (field_floor fl) = field_atom fl) =
           (\<not> has_flag v (field_wall fl) \<and> has_flag v (field_atom fl) \<and>
            \<not> has_flag v (field_goal fl))"
    unfolding e using c(3) k by (simp only: has_flag_bit)
  show "(v AND NOT (field_floor fl) = field_goal fl) =
           (\<not> has_flag v (field_wall fl) \<and> \<not> has_flag v (field_atom fl) \<and>
            has_flag v (field_goal fl))"
    unfolding e using c(4) k by (simp only: has_flag_bit)
qed

lemma concat_nth_uniform:
  "(\<forall>r \<in> set rows. length r = n) \<Longrightarrow> i < length rows \<Longrightarrow> j < n \<Longrightarrow>
   concat rows ! (i * n + j) = rows ! i ! j"
proof (induction rows arbitrary: i)
  case Nil
  then show ?case by simp
next
  case (Cons r rows)
  show ?case
  proof (cases i)
    case 0
    then show ?thesis using Cons.prems by (simp add: nth_append)
  next
    case (Suc k)
    have "concat rows ! (k * n + j) = rows ! k ! j"
      using Cons.prems Suc by (intro Cons.IH) auto
    then show ?thesis using Cons.prems Suc by (simp add: nth_append add.assoc)
  qed
qed

lemma concat_length_uniform:
  "(\<forall>r \<in> set rows. length r = n) \<Longrightarrow> length (concat rows) = length rows * n"
  by (induction rows) auto

lemma dump_row_length: "length (dump_row fl g y) = field_width g + 1"
  by (simp add: dump_row_def)

lemma dump_rows_length:
  "length (dump_rows fl g) = (field_width g + 1) * field_height g"
  unfolding dump_rows_def
  using concat_length_uniform [of "map (dump_row fl g) [0..<field_height g]"
      "field_width g + 1"]
  by (simp add: dump_row_length)

lemma dump_rows_nth:
  assumes "y < field_height g" and "j < field_width g + 1"
  shows "dump_rows fl g ! (y * (field_width g + 1) + j) = dump_row fl g y ! j"
  unfolding dump_rows_def
  using concat_nth_uniform [of "map (dump_row fl g) [0..<field_height g]"
      "field_width g + 1" y j] assms
  by (simp add: dump_row_length)

lemma dump_rows_cell:
  assumes "x < field_width g" and "y < field_height g"
  shows "dump_rows fl g ! (y * (field_width g + 1) + x) =
         cell_symbol fl g (int x) (int y)"
  using dump_rows_nth [of y g x fl] assms by (simp add: dump_row_def nth_append)

lemma dump_rows_newline:
  assumes "y < field_height g"
  shows "dump_rows fl g ! (y * (field_width g + 1) + field_width g) = NL"
  using dump_rows_nth [of y g "field_width g" fl] assms
  by (simp add: dump_row_def nth_append)

lemma cell_symbol_alphabet:
  assumes i: "independent_bits fl" and c: "cell_invariant fl (field g x y)"
  shows "cell_symbol fl g x y =
         alphabet_symbol fl (field g x y) (positionx g = x \<and> positiony g = y)"
proof -
  have o: "only_flags fl (field g x y)" using c by (simp add: cell_invariant_def)
  note cc = cell_cases [OF i o]
  show ?thesis
    using c unfolding cell_symbol_def alphabet_symbol_def cell_invariant_def Let_def
    by (simp only: cc) (auto split: if_splits)
qed

lemma dump_text:
  "dumplevel2clipboard fl g hist ok = Inr out \<Longrightarrow> out = dump_txt fl g hist"
  unfolding dumplevel2clipboard_def Let_def by (simp split: if_splits)

text \<open>
  C6. The dump of the grid has one line for each row and one symbol for each cell of the
  row, and the symbol of a cell follows from its flags and from the position of the
  player: '#' for a wall, '*' for a box on a goal, '$' for a box, '+' for the player on
  a goal, '.' for a goal, '@' for the player on a plain cell, a blank for any other
  cell. The flags are independent bits and a cell is one of the data model.
\<close>

theorem dump_cell_alphabet:
  assumes "independent_bits fl"
  shows "(\<forall>hist ok out. dumplevel2clipboard fl g hist ok = Inr out \<longrightarrow>
            out = ''; Level id: '' @ hexX (crc32 g) @ [NL, NL] @ dump_rows fl g @
                  [NL] @ dump_trailer hist) \<and>
         length (dump_rows fl g) = (field_width g + 1) * field_height g \<and>
         (\<forall>x y. x < field_width g \<and> y < field_height g \<longrightarrow>
            dump_rows fl g ! (y * (field_width g + 1) + x) =
              cell_symbol fl g (int x) (int y)) \<and>
         (\<forall>y. y < field_height g \<longrightarrow>
            dump_rows fl g ! (y * (field_width g + 1) + field_width g) = NL) \<and>
         (\<forall>x y. cell_invariant fl (field g x y) \<longrightarrow>
            cell_symbol fl g x y =
              alphabet_symbol fl (field g x y) (positionx g = x \<and> positiony g = y))"
proof (intro conjI allI impI)
  fix hist ok out
  assume "dumplevel2clipboard fl g hist ok = Inr out"
  then show "out = ''; Level id: '' @ hexX (crc32 g) @ [NL, NL] @ dump_rows fl g @
                  [NL] @ dump_trailer hist"
    using dump_text [of fl g hist ok out] by (simp only: dump_txt_def)
next
  show "length (dump_rows fl g) = (field_width g + 1) * field_height g"
    by (rule dump_rows_length)
next
  fix x y
  assume "x < field_width g \<and> y < field_height g"
  then show "dump_rows fl g ! (y * (field_width g + 1) + x) = cell_symbol fl g (int x) (int y)"
    using dump_rows_cell [of x g y fl] by simp
next
  fix y
  assume "y < field_height g"
  then show "dump_rows fl g ! (y * (field_width g + 1) + field_width g) = NL"
    by (rule dump_rows_newline)
next
  fix x y
  assume "cell_invariant fl (field g x y)"
  then show "cell_symbol fl g x y =
      alphabet_symbol fl (field g x y) (positionx g = x \<and> positiony g = y)"
    using assms by (intro cell_symbol_alphabet)
qed

theorem dump_cell_alphabet_witness:
  "independent_bits xsb_flags \<and>
   (2::nat) < field_width scenario_A \<and> (1::nat) < field_height scenario_A \<and>
   cell_invariant xsb_flags (field scenario_A 2 1) \<and>
   dumplevel2clipboard xsb_flags scenario_A None True = Inr (dump_txt xsb_flags scenario_A None) \<and>
   dump_txt xsb_flags scenario_A None =
     ''; Level id: 0'' @ [NL, NL] @ ''#####'' @ [NL] @ ''#@$.#'' @ [NL] @ ''#####'' @ [NL, NL] @
     ''; No solution available'' @ [NL] \<and>
   dump_rows xsb_flags scenario_A ! (1 * (field_width scenario_A + 1) + 2) =
     alphabet_symbol xsb_flags (field scenario_A 2 1)
       (positionx scenario_A = 2 \<and> positiony scenario_A = 1) \<and>
   alphabet_symbol xsb_flags (field scenario_A 2 1)
       (positionx scenario_A = 2 \<and> positiony scenario_A = 1) = CHR ''$'' \<and>
   dump_rows xsb_flags scenario_A ! (1 * (field_width scenario_A + 1) + field_width scenario_A) = NL"
proof -
  have i: "independent_bits xsb_flags"
    by (simp add: independent_bits_def xsb_flags_def single_bit_def)
  have b: "(2::nat) < field_width scenario_A \<and> (1::nat) < field_height scenario_A"
    by (simp add: scenario_A_def)
  have c: "cell_invariant xsb_flags (field scenario_A 2 1)"
    by code_simp
  have d: "dumplevel2clipboard xsb_flags scenario_A None True =
      Inr (dump_txt xsb_flags scenario_A None)"
    by code_simp
  have t: "dump_txt xsb_flags scenario_A None =
     ''; Level id: 0'' @ [NL, NL] @ ''#####'' @ [NL] @ ''#@$.#'' @ [NL] @ ''#####'' @ [NL, NL] @
     ''; No solution available'' @ [NL]"
    by code_simp
  have a: "alphabet_symbol xsb_flags (field scenario_A 2 1)
       (positionx scenario_A = 2 \<and> positiony scenario_A = 1) = CHR ''$''"
    by code_simp
  note th = dump_cell_alphabet [OF i, of scenario_A]
  have n: "dump_rows xsb_flags scenario_A ! (1 * (field_width scenario_A + 1) + 2) =
      cell_symbol xsb_flags scenario_A (int 2) (int 1)"
    using th b by blast
  have s: "cell_symbol xsb_flags scenario_A 2 1 =
      alphabet_symbol xsb_flags (field scenario_A 2 1)
        (positionx scenario_A = 2 \<and> positiony scenario_A = 1)"
    using th c by blast
  have l: "dump_rows xsb_flags scenario_A !
      (1 * (field_width scenario_A + 1) + field_width scenario_A) = NL"
    using th b by blast
  have n': "dump_rows xsb_flags scenario_A ! (1 * (field_width scenario_A + 1) + 2) =
      alphabet_symbol xsb_flags (field scenario_A 2 1)
        (positionx scenario_A = 2 \<and> positiony scenario_A = 1)"
    using n s by simp
  from i b c d t n' a l show ?thesis by blast
qed

end
